theory Spec2Isabelle
  imports Main
begin

section \<open>The useFetch hook of src/src/index.ts\<close>

text \<open>
  The hook keeps a React state cell \<open>{data, loading, error}\<close> and a ref holding the
  \<open>AbortController\<close> of the most recent \<open>execute\<close> call. \<open>execute\<close> is an async
  function with one suspension point, \<open>await apiFetch(options)\<close>: the part before the
  await runs when \<open>execute\<close> is called, the part after it runs when the transport promise
  settles. The model passes the hook state explicitly and splits \<open>execute\<close> at the await.

  Type parameters: \<open>'a\<close> is the payload type \<open>T\<close>, \<open>'e\<close> is \<open>ApiError\<close>, \<open>'v\<close> is the
  type of option values, \<open>'x\<close> is the type of thrown values (rejection reasons). The last
  three belong to the library \<open>simple-fetch-api\<close> and to the JavaScript runtime, so they
  are left open.
\<close>

subsection \<open>Data\<close>

text \<open>\<open>interface UseFetchState<T>\<close>; \<open>null\<close> is \<open>None\<close>.\<close>

record ('a, 'e) UseFetchState =
  data :: "'a option"
  loading :: bool
  error :: "'e option"

text \<open>
  \<open>ApiResult<T>\<close> as \<open>execute\<close> reads it: \<open>result.ok\<close> with \<open>result.data\<close>, or else
  \<open>result.error\<close>.
\<close>

datatype ('a, 'e) ApiResult = Ok 'a | Failure 'e

text \<open>How a promise settles.\<close>

datatype ('r, 'x) settled = Fulfilled 'r | Rejected 'x

text \<open>How a synchronous call completes.\<close>

datatype ('s, 'x) completion = Normal 's | Throw 'x

text \<open>
  An options object maps property names to values. A property value is either the
  \<open>signal\<close> of one of the hook's own \<open>AbortController\<close>s, named by the controller's
  number, or any other value (a caller's own signal included).
\<close>

datatype 'v property = Val 'v | Signal nat

type_synonym 'v ApiFetchOptions = "string \<rightharpoonup> 'v property"

text \<open>
  The hook instance: the state cell, \<open>abortControllerRef.current\<close>, and what the model
  needs of the world around it: how many \<open>AbortController\<close>s have been created (the next
  one gets this number), the \<open>abort()\<close> calls made so far, the \<open>apiFetch\<close> calls made so
  far, the \<open>execute\<close> invocations suspended at their await (named by their controller),
  and the promises of \<open>execute\<close> that have settled.
\<close>

record ('a, 'e, 'v, 'x) hook =
  state :: "('a, 'e) UseFetchState"
  abortControllerRef :: "nat option"
  controllers :: nat
  aborts :: "nat list"
  apiFetch_calls :: "'v ApiFetchOptions list"
  awaiting :: "nat list"
  promises :: "(nat \<times> (('a, 'e) ApiResult, 'x) settled) list"

subsection \<open>Operations\<close>

text \<open>\<open>setState(f)\<close>; \<open>setState(v)\<close> is \<open>setState (\<lambda>_. v)\<close>.\<close>

definition setState ::
  "(('a, 'e) UseFetchState \<Rightarrow> ('a, 'e) UseFetchState) \<Rightarrow> ('a, 'e, 'v, 'x) hook \<Rightarrow> ('a, 'e, 'v, 'x) hook"
where
  "setState f h = h\<lparr>state := f (state h)\<rparr>"

text \<open>\<open>controller.abort()\<close> on controller \<open>c\<close>.\<close>

definition abort :: "nat \<Rightarrow> ('a, 'e, 'v, 'x) hook \<Rightarrow> ('a, 'e, 'v, 'x) hook" where
  "abort c h = h\<lparr>aborts := aborts h @ [c]\<rparr>"

text \<open>
  Object spread \<open>{...obj, ...src}\<close>: every property of \<open>src\<close> is copied onto \<open>obj\<close>,
  replacing the value of a key that is already there.
\<close>

definition spread :: "'v ApiFetchOptions \<Rightarrow> 'v ApiFetchOptions \<Rightarrow> 'v ApiFetchOptions" where
  "spread obj src = obj ++ src"

text \<open>
  \<open>{ ...initialOptions, ...overrideOptions, signal: abortControllerRef.current.signal }\<close>
  where \<open>overrideOptions\<close> may be \<open>undefined\<close> (spreading it adds nothing).
\<close>

definition merge_options ::
  "'v ApiFetchOptions \<Rightarrow> 'v ApiFetchOptions option \<Rightarrow> nat \<Rightarrow> 'v ApiFetchOptions"
where
  "merge_options initialOptions overrideOptions c =
     (spread (spread Map.empty initialOptions)
        (case overrideOptions of None \<Rightarrow> Map.empty | Some ov \<Rightarrow> ov))
     (''signal'' \<mapsto> Signal c)"

text \<open>
  \<open>execute\<close> from its call to its await (lines 121 to 135): abort the controller in the
  ref if there is one, put a new controller in the ref, set \<open>loading\<close> and clear \<open>error\<close>
  on the previous state, build the options and call \<open>apiFetch\<close>; the invocation is then
  suspended.
\<close>

definition execute_call ::
  "'v ApiFetchOptions \<Rightarrow> 'v ApiFetchOptions option \<Rightarrow> ('a, 'e, 'v, 'x) hook \<Rightarrow> ('a, 'e, 'v, 'x) hook"
where
  "execute_call initialOptions overrideOptions h =
     (let h1 = (case abortControllerRef h of None \<Rightarrow> h | Some c \<Rightarrow> abort c h);
          c = controllers h1;
          h2 = h1\<lparr>abortControllerRef := Some c, controllers := Suc c\<rparr>;
          h3 = setState (\<lambda>prev. prev\<lparr>loading := True, error := None\<rparr>) h2;
          options = merge_options initialOptions overrideOptions c
      in h3\<lparr>apiFetch_calls := apiFetch_calls h3 @ [options],
             awaiting := awaiting h3 @ [c]\<rparr>)"

text \<open>
  \<open>execute\<close> from its await on (lines 135 to 143), for the invocation of controller \<open>c\<close>
  whose transport promise settled as \<open>outcome\<close>. A rejected transport promise makes the
  await throw, which rejects the promise of \<open>execute\<close> with nothing else done. Otherwise
  the state is written from the result and the result is returned.
\<close>

definition execute_resume ::
  "nat \<Rightarrow> (('a, 'e) ApiResult, 'x) settled \<Rightarrow> ('a, 'e, 'v, 'x) hook \<Rightarrow> ('a, 'e, 'v, 'x) hook"
where
  "execute_resume c outcome h =
     (case outcome of
        Rejected x \<Rightarrow> h\<lparr>promises := promises h @ [(c, Rejected x)]\<rparr>
      | Fulfilled result \<Rightarrow>
          (let h1 = (case result of
                       Ok d \<Rightarrow> setState (\<lambda>_. \<lparr>data = Some d, loading = False, error = None\<rparr>) h
                     | Failure e \<Rightarrow> setState (\<lambda>_. \<lparr>data = None, loading = False, error = Some e\<rparr>) h)
           in h1\<lparr>promises := promises h1 @ [(c, Fulfilled result)]\<rparr>))"

text \<open>\<open>reset\<close> (lines 151 to 153).\<close>

definition reset :: "('a, 'e, 'v, 'x) hook \<Rightarrow> ('a, 'e, 'v, 'x) hook" where
  "reset h = setState (\<lambda>_. \<lparr>data = None, loading = False, error = None\<rparr>) h"

text \<open>The function returned by the effect (lines 165 to 169).\<close>

definition cleanup :: "('a, 'e, 'v, 'x) hook \<Rightarrow> (('a, 'e, 'v, 'x) hook, 'x) completion" where
  "cleanup h = Normal (case abortControllerRef h of None \<Rightarrow> h | Some c \<Rightarrow> abort c h)"

text \<open>The body of the effect (lines 160 to 162); the promise of \<open>execute\<close> is dropped.\<close>

definition effect ::
  "'v ApiFetchOptions \<Rightarrow> bool \<Rightarrow> ('a, 'e, 'v, 'x) hook \<Rightarrow> ('a, 'e, 'v, 'x) hook"
where
  "effect initialOptions autoFetch h =
     (if autoFetch then execute_call initialOptions None h else h)"

text \<open>The hook before its effect has run: \<open>useState\<close> and \<open>useRef\<close> (lines 99 to 109).\<close>

definition useFetch_init :: "('a, 'e, 'v, 'x) hook" where
  "useFetch_init =
     \<lparr>state = \<lparr>data = None, loading = False, error = None\<rparr>,
      abortControllerRef = None, controllers = 0, aborts = [],
      apiFetch_calls = [], awaiting = [], promises = []\<rparr>"

text \<open>
  \<open>useFetch(initialOptions, autoFetch = false)\<close> once mounted: the first render followed
  by the first run of the effect. A missing second argument is \<open>None\<close>. The function
  the effect returns is \<open>cleanup\<close>. Later renders, which may run the cleanup and the
  effect again, are \<open>rerender\<close> below.
\<close>

definition useFetch :: "'v ApiFetchOptions \<Rightarrow> bool option \<Rightarrow> ('a, 'e, 'v, 'x) hook" where
  "useFetch initialOptions autoFetch =
     effect initialOptions (case autoFetch of None \<Rightarrow> False | Some b \<Rightarrow> b) useFetch_init"

subsection \<open>Interleavings\<close>

text \<open>
  What can happen to a mounted hook: a caller calls \<open>execute\<close>, the transport promise of a
  suspended invocation settles, a caller calls \<open>reset\<close>, the component unmounts. The code
  has no mounted flag, so nothing stops \<open>execute\<close>, \<open>reset\<close> or a resolution after the
  unmount. A resolution is possible only for an invocation that is suspended.
\<close>

datatype ('a, 'e, 'v, 'x) event =
    Execute "'v ApiFetchOptions option"
  | Resolve nat "(('a, 'e) ApiResult, 'x) settled"
  | Reset
  | Unmount

fun step ::
  "'v ApiFetchOptions \<Rightarrow> ('a, 'e, 'v, 'x) event \<Rightarrow> ('a, 'e, 'v, 'x) hook \<Rightarrow> ('a, 'e, 'v, 'x) hook option"
where
  "step io (Execute ov) h = Some (execute_call io ov h)"
| "step io (Resolve c outcome) h =
     (if c \<in> set (awaiting h)
      then Some (execute_resume c outcome (h\<lparr>awaiting := removeAll c (awaiting h)\<rparr>))
      else None)"
| "step io Reset h = Some (reset h)"
| "step io Unmount h = (case cleanup h of Normal h' \<Rightarrow> Some h' | Throw x \<Rightarrow> None)"

fun run ::
  "'v ApiFetchOptions \<Rightarrow> ('a, 'e, 'v, 'x) event list \<Rightarrow> ('a, 'e, 'v, 'x) hook \<Rightarrow> ('a, 'e, 'v, 'x) hook option"
where
  "run io [] h = Some h"
| "run io (ev # evs) h = (case step io ev h of None \<Rightarrow> None | Some h' \<Rightarrow> run io evs h')"


subsection \<open>Rendering again\<close>

text \<open>
  The hook is called on every render of its component. React compares the dependency
  arrays of the source with those of the previous render, entry by entry, with
  \<open>Object.is\<close>. For \<open>useCallback(..., [initialOptions])\<close> (line 145): \<open>execute\<close> is the
  function of the previous render when \<open>initialOptions\<close> is the same object, and a new
  function otherwise. For \<open>useEffect(..., [autoFetch, execute])\<close> (line 170): when both
  entries are the same as in the previous render nothing happens, otherwise the cleanup
  returned by the previous run of the effect is called and then the body runs again,
  with the \<open>autoFetch\<close> and the \<open>execute\<close> of this render.

  An options object is given with its reference, a number: two objects are the same
  object when the references are equal, whatever their properties. The arguments of one
  render are the options object and the \<open>autoFetch\<close> argument (\<open>None\<close> when it is missing).
\<close>

type_synonym 'v options_object = "nat \<times> 'v ApiFetchOptions"

type_synonym 'v render_args = "'v options_object \<times> bool option"

text \<open>The default parameter \<open>autoFetch = false\<close> (line 97).\<close>

definition autoFetch_arg :: "bool option \<Rightarrow> bool" where
  "autoFetch_arg a = (case a of None \<Rightarrow> False | Some b \<Rightarrow> b)"

text \<open>Whether \<open>useCallback\<close> returns the \<open>execute\<close> of the previous render.\<close>

definition same_execute :: "'v options_object \<Rightarrow> 'v options_object \<Rightarrow> bool" where
  "same_execute prev new = (fst prev = fst new)"

text \<open>Whether both dependencies of the effect are those of the previous render.\<close>

definition same_effect_deps :: "'v render_args \<Rightarrow> 'v render_args \<Rightarrow> bool" where
  "same_effect_deps prev new =
     (autoFetch_arg (snd prev) = autoFetch_arg (snd new) \<and> same_execute (fst prev) (fst new))"

text \<open>The first render and the first run of the effect.\<close>

definition mount :: "'v render_args \<Rightarrow> ('a, 'e, 'v, 'x) hook" where
  "mount args = useFetch (snd (fst args)) (snd args)"

text \<open>A later render, after a render with the arguments \<open>prev\<close>.\<close>

definition rerender ::
  "'v render_args \<Rightarrow> 'v render_args \<Rightarrow> ('a, 'e, 'v, 'x) hook \<Rightarrow> ('a, 'e, 'v, 'x) hook option"
where
  "rerender prev new h =
     (if same_effect_deps prev new then Some h
      else (case cleanup h of
              Normal h' \<Rightarrow> Some (effect (snd (fst new)) (autoFetch_arg (snd new)) h')
            | Throw x \<Rightarrow> None))"

text \<open>A sequence of later renders, each compared with the one before it.\<close>

fun rerenders ::
  "'v render_args \<Rightarrow> 'v render_args list \<Rightarrow> ('a, 'e, 'v, 'x) hook \<Rightarrow> ('a, 'e, 'v, 'x) hook option"
where
  "rerenders prev [] h = Some h"
| "rerenders prev (args # rest) h =
     (case rerender prev args h of None \<Rightarrow> None | Some h' \<Rightarrow> rerenders args rest h')"

subsection \<open>Auxiliary definitions\<close>

text \<open>The state that the continuation of \<open>execute\<close> writes for a result (lines 137 to 141).\<close>

definition result_state :: "('a, 'e) ApiResult \<Rightarrow> ('a, 'e) UseFetchState" where
  "result_state result =
     (case result of
        Ok d \<Rightarrow> \<lparr>data = Some d, loading = False, error = None\<rparr>
      | Failure e \<Rightarrow> \<lparr>data = None, loading = False, error = Some e\<rparr>)"

text \<open>
  Concrete inputs for the examples below: the options of the first usage example in the
  doc comment of \<open>useFetch\<close>, and an override that changes the method and brings a
  signal of the caller's own.
\<close>

definition example_options :: "string ApiFetchOptions" where
  "example_options =
     [''url'' \<mapsto> Val ''https://api.example.com/users'', ''method'' \<mapsto> Val ''GET'']"

definition example_override :: "string ApiFetchOptions" where
  "example_override = [''method'' \<mapsto> Val ''POST'', ''signal'' \<mapsto> Val ''caller'']"

section \<open>Properties\<close>

lemmas hook_defs = setState_def abort_def spread_def merge_options_def execute_call_def
  execute_resume_def reset_def cleanup_def effect_def useFetch_init_def useFetch_def

subsection \<open>What each operation does to each component\<close>

lemma state_execute_call:
  "state (execute_call io ov h) = (state h)\<lparr>loading := True, error := None\<rparr>"
  by (simp add: execute_call_def setState_def abort_def Let_def split: option.split)

lemma awaiting_execute_call: "awaiting (execute_call io ov h) = awaiting h @ [controllers h]"
  by (simp add: execute_call_def setState_def abort_def Let_def split: option.split)

lemma controllers_execute_call: "controllers (execute_call io ov h) = Suc (controllers h)"
  by (simp add: execute_call_def setState_def abort_def Let_def split: option.split)

lemma abortControllerRef_execute_call:
  "abortControllerRef (execute_call io ov h) = Some (controllers h)"
  by (simp add: execute_call_def setState_def abort_def Let_def split: option.split)

lemma aborts_execute_call:
  "aborts (execute_call io ov h) =
     aborts h @ (case abortControllerRef h of None \<Rightarrow> [] | Some c \<Rightarrow> [c])"
  by (simp add: execute_call_def setState_def abort_def Let_def split: option.split)

lemma state_execute_resume:
  "state (execute_resume c (Fulfilled r) h) = result_state r"
  by (simp add: execute_resume_def setState_def result_state_def Let_def split: ApiResult.split)

lemma state_execute_resume_rejected:
  "state (execute_resume c (Rejected x) h) = state h"
  by (simp add: execute_resume_def)


lemma state_reset: "state (reset h) = \<lparr>data = None, loading = False, error = None\<rparr>"
  by (simp add: reset_def setState_def)

lemma state_useFetch:
  "state (useFetch io af) =
     \<lparr>data = None, loading = (case af of Some True \<Rightarrow> True | _ \<Rightarrow> False), error = None\<rparr>"
  by (simp add: useFetch_def effect_def state_execute_call useFetch_init_def
        split: option.split bool.split)

subsection \<open>Invariants of every interleaving\<close>

text \<open>A property kept by every step holds after every run.\<close>

lemma run_invariant:
  assumes "\<And>ev h h'. step io ev h = Some h' \<Longrightarrow> P h \<Longrightarrow> P h'"
  shows "P h0 \<Longrightarrow> run io evs h0 = Some h \<Longrightarrow> P h"
proof (induction evs arbitrary: h0)
  case Nil
  then show ?case by simp
next
  case (Cons ev evs)
  then obtain h1 where s: "step io ev h0 = Some h1" and r: "run io evs h1 = Some h"
    by (auto split: option.splits)
  from assms[OF s Cons.prems(1)] have "P h1" .
  with Cons.IH r show ?case by blast
qed

lemma step_exclusive:
  assumes "step io ev h = Some h'" "data (state h) = None \<or> error (state h) = None"
  shows "data (state h') = None \<or> error (state h') = None"
proof (cases ev)
  case (Execute ov)
  with assms show ?thesis by (auto simp: state_execute_call)
next
  case (Resolve c outcome)
  with assms show ?thesis
    by (cases outcome)
       (auto simp: state_execute_resume state_execute_resume_rejected result_state_def
             split: if_splits ApiResult.splits)
next
  case Reset
  with assms show ?thesis by (auto simp: state_reset)
next
  case Unmount
  with assms show ?thesis by (auto simp: cleanup_def abort_def split: option.splits)
qed

lemma step_loading:
  assumes "step io ev h = Some h'" "loading (state h) \<longrightarrow> error (state h) = None"
  shows "loading (state h') \<longrightarrow> error (state h') = None"
proof (cases ev)
  case (Execute ov)
  with assms show ?thesis by (auto simp: state_execute_call)
next
  case (Resolve c outcome)
  with assms show ?thesis
    by (cases outcome)
       (auto simp: state_execute_resume state_execute_resume_rejected result_state_def
             split: if_splits ApiResult.splits)
next
  case Reset
  with assms show ?thesis by (auto simp: state_reset)
next
  case Unmount
  with assms show ?thesis by (auto simp: cleanup_def abort_def split: option.splits)
qed

text \<open>
  C3. In every state reached from the mounted hook by any sequence of \<open>execute\<close> calls,
  transport resolutions (fulfilled with success or failure, or rejected), \<open>reset\<close> calls
  and unmounts, \<open>data\<close> and \<open>error\<close> are never both present.
\<close>

theorem data_error_exclusive:
  "run io evs (useFetch io autoFetch) = Some h \<Longrightarrow>
     \<not> (data (state h) \<noteq> None \<and> error (state h) \<noteq> None)"
proof -
  assume r: "run io evs (useFetch io autoFetch) = Some h"
  have init: "data (state (useFetch io autoFetch)) = None
                \<or> error (state (useFetch io autoFetch)) = None"
    by (simp add: state_useFetch)
  have "data (state h) = None \<or> error (state h) = None"
    by (rule run_invariant[where P = "\<lambda>h. data (state h) = None \<or> error (state h) = None",
                           OF _ init r])
       (rule step_exclusive)
  then show ?thesis by auto
qed

text \<open>
  The theorem at a run with a failed request, a second request with overrides, a reset
  while it is in flight, its success, and the unmount.
\<close>

theorem data_error_exclusive_witness:
  "map_option state
     (run example_options
        [Execute None, Resolve 0 (Fulfilled (Failure ''timeout'')),
         Execute (Some example_override), Reset, Resolve 1 (Fulfilled (Ok 7)), Unmount]
        (useFetch example_options (Some False) :: (nat, string, string, unit) hook))
   = Some \<lparr>data = Some 7, loading = False, error = None\<rparr>
   \<and> \<not> (data \<lparr>data = Some (7::nat), loading = False, error = None :: string option\<rparr> \<noteq> None
        \<and> error \<lparr>data = Some (7::nat), loading = False, error = None :: string option\<rparr> \<noteq> None)"
proof -
  have r: "run example_options
        [Execute None, Resolve 0 (Fulfilled (Failure ''timeout'')),
         Execute (Some example_override), Reset, Resolve 1 (Fulfilled (Ok 7)), Unmount]
        (useFetch example_options (Some False) :: (nat, string, string, unit) hook)
      = Some (the (run example_options
        [Execute None, Resolve 0 (Fulfilled (Failure ''timeout'')),
         Execute (Some example_override), Reset, Resolve 1 (Fulfilled (Ok 7)), Unmount]
        (useFetch example_options (Some False))))"
    by (simp add: hook_defs)
  show ?thesis
    using data_error_exclusive[OF r] by (simp add: hook_defs)
qed

text \<open>
  C10. In every reachable state, whenever \<open>loading\<close> is true \<open>error\<close> is absent: the start
  of a request writes \<open>error: null\<close> with \<open>loading: true\<close>, every write of an error
  sets \<open>loading\<close> to false, and the initial and reset states have \<open>loading\<close> false.
\<close>

theorem loading_without_error:
  "run io evs (useFetch io autoFetch) = Some h \<Longrightarrow> loading (state h) \<Longrightarrow> error (state h) = None"
proof -
  assume r: "run io evs (useFetch io autoFetch) = Some h" and l: "loading (state h)"
  have init: "loading (state (useFetch io autoFetch))
                \<longrightarrow> error (state (useFetch io autoFetch)) = None"
    by (simp add: state_useFetch)
  have "loading (state h) \<longrightarrow> error (state h) = None"
    by (rule run_invariant[where P = "\<lambda>h. loading (state h) \<longrightarrow> error (state h) = None",
                           OF _ init r])
       (rule step_loading)
  with l show ?thesis by simp
qed

text \<open>The theorem at a run that starts a second request after the first one failed.\<close>

theorem loading_without_error_witness:
  "map_option state
     (run example_options
        [Execute None, Resolve 0 (Fulfilled (Failure ''timeout'')), Execute None]
        (useFetch example_options None :: (nat, string, string, unit) hook))
   = Some \<lparr>data = None, loading = True, error = None\<rparr>
   \<and> loading \<lparr>data = None :: nat option, loading = True, error = None :: string option\<rparr>
   \<and> error \<lparr>data = None :: nat option, loading = True, error = None :: string option\<rparr> = None"
proof -
  have r: "run example_options
        [Execute None, Resolve 0 (Fulfilled (Failure ''timeout'')), Execute None]
        (useFetch example_options None :: (nat, string, string, unit) hook)
      = Some (the (run example_options
        [Execute None, Resolve 0 (Fulfilled (Failure ''timeout'')), Execute None]
        (useFetch example_options None)))"
    by (simp add: hook_defs)
  have l: "loading (state (the (run example_options
        [Execute None, Resolve 0 (Fulfilled (Failure ''timeout'')), Execute None]
        (useFetch example_options None :: (nat, string, string, unit) hook))))"
    by (simp add: hook_defs)
  show ?thesis
    using loading_without_error[OF r l] by (simp add: hook_defs)
qed

subsection \<open>The start of a request\<close>



text \<open>
  C8. The options passed to \<open>apiFetch\<close> by \<open>execute(overrides)\<close> are the initial options
  with the overrides on top, an override winning on every key both have, except that
  \<open>signal\<close> is always the signal of the controller created by this very call, whatever
  signal the initial options or the overrides bring. The controller is new: it has the
  number that no earlier controller has, and it is the one put in the ref.
\<close>

theorem execute_options_merge:
  "apiFetch_calls (execute_call io ov h) = apiFetch_calls h @ [merge_options io ov (controllers h)]
   \<and> abortControllerRef (execute_call io ov h) = Some (controllers h)
   \<and> controllers (execute_call io ov h) = Suc (controllers h)
   \<and> merge_options io ov c ''signal'' = Some (Signal c)
   \<and> (k \<noteq> ''signal'' \<longrightarrow> merge_options io None c k = io k)
   \<and> (k \<noteq> ''signal'' \<longrightarrow>
        merge_options io (Some m) c k = (case m k of None \<Rightarrow> io k | Some v \<Rightarrow> Some v))"
  by (simp add: execute_call_def setState_def abort_def merge_options_def spread_def Let_def
        map_add_def split: option.split)

text \<open>
  The theorem at initial options and overrides that both bring a signal: the signal
  passed is the controller's, \<open>method\<close> is the override's, \<open>url\<close> is the initial one.
\<close>

theorem execute_options_merge_witness:
  "merge_options (example_options(''signal'' \<mapsto> Val ''base'')) (Some example_override) 3 ''signal''
     = Some (Signal 3)
   \<and> ''method'' \<noteq> ''signal''
   \<and> merge_options (example_options(''signal'' \<mapsto> Val ''base'')) (Some example_override) 3 ''method''
     = Some (Val ''POST'')
   \<and> merge_options (example_options(''signal'' \<mapsto> Val ''base'')) None 3 ''method''
     = Some (Val ''GET'')
   \<and> ''url'' \<noteq> ''signal''
   \<and> merge_options (example_options(''signal'' \<mapsto> Val ''base'')) (Some example_override) 3 ''url''
     = Some (Val ''https://api.example.com/users'')"
  using execute_options_merge[of "example_options(''signal'' \<mapsto> Val ''base'')"
          "Some example_override" "useFetch_init :: (nat, string, string, unit) hook" 3
          "''method''" example_override]
        execute_options_merge[of "example_options(''signal'' \<mapsto> Val ''base'')"
          "Some example_override" "useFetch_init :: (nat, string, string, unit) hook" 3
          "''url''" example_override]
  by (simp add: example_options_def example_override_def)

subsection \<open>The resolution of a request\<close>




text \<open>
  C6. For every invocation of \<open>execute\<close> that is suspended at its await, superseded or
  not (nothing is asked of the ref), the promise it returned settles with the very outcome
  of its own transport promise: a success or failure result is returned as it is.
\<close>

theorem execute_returns_own_result:
  "c \<in> set (awaiting h) \<Longrightarrow>
     map_option promises (step io (Resolve c outcome) h) = Some (promises h @ [(c, outcome)])"
  by (simp add: execute_resume_def setState_def Let_def split: settled.split ApiResult.split)

text \<open>
  The theorem at an invocation that has been superseded (the ref holds controller 1)
  and whose transport then reports the abort as a failure.
\<close>

theorem execute_returns_own_result_witness:
  "0 \<in> set (awaiting (execute_call example_options (Some example_override)
             (execute_call example_options None (useFetch_init :: (nat, string, string, unit) hook))))
   \<and> abortControllerRef (execute_call example_options (Some example_override)
             (execute_call example_options None (useFetch_init :: (nat, string, string, unit) hook)))
     = Some 1
   \<and> map_option promises
       (step example_options (Resolve 0 (Fulfilled (Failure ''aborted'')))
          (execute_call example_options (Some example_override)
             (execute_call example_options None (useFetch_init :: (nat, string, string, unit) hook))))
     = Some [(0, Fulfilled (Failure ''aborted''))]"
proof -
  have a: "0 \<in> set (awaiting (execute_call example_options (Some example_override)
             (execute_call example_options None (useFetch_init :: (nat, string, string, unit) hook))))"
    by (simp add: awaiting_execute_call controllers_execute_call useFetch_init_def)
  show ?thesis
    using a execute_returns_own_result[OF a, of example_options "Fulfilled (Failure ''aborted'')"]
    by (simp add: hook_defs)
qed

text \<open>
  C9. When the transport promise is fulfilled with a result (it does not reject),
  the promise of \<open>execute\<close> is fulfilled with that result, never rejected, and a failure
  result is written to the state as \<open>{data: null, loading: false, error}\<close> with the
  failure's error.
\<close>

theorem execute_captures_failure:
  "step io (Resolve c (Fulfilled r)) h = Some h' \<Longrightarrow>
     promises h' = promises h @ [(c, Fulfilled r)]
     \<and> (\<forall>e. r = Failure e \<longrightarrow>
          state h' = \<lparr>data = None, loading = False, error = Some e\<rparr>)"
  by (cases r) (auto simp: execute_resume_def setState_def Let_def split: if_splits)

text \<open>
  The theorem at a request whose transport reports a failure.
\<close>

theorem execute_captures_failure_witness:
  "map_option promises
     (step example_options (Resolve 0 (Fulfilled (Failure ''offline'')))
        (execute_call example_options None (useFetch_init :: (nat, string, string, unit) hook)))
     = Some [(0, Fulfilled (Failure ''offline''))]
   \<and> map_option state
     (step example_options (Resolve 0 (Fulfilled (Failure ''offline'')))
        (execute_call example_options None (useFetch_init :: (nat, string, string, unit) hook)))
     = Some \<lparr>data = None, loading = False, error = Some ''offline''\<rparr>"
proof -
  have s: "step example_options (Resolve 0 (Fulfilled (Failure ''offline'')))
        (execute_call example_options None (useFetch_init :: (nat, string, string, unit) hook))
     = Some (the (step example_options (Resolve 0 (Fulfilled (Failure ''offline'')))
        (execute_call example_options None useFetch_init)))"
    by (simp add: awaiting_execute_call useFetch_init_def)
  show ?thesis
    using execute_captures_failure[OF s] by (simp add: hook_defs)
qed

subsection \<open>Reset\<close>

text \<open>
  C5. \<open>reset()\<close> sets the state to \<open>{data: null, loading: false, error: null}\<close> and
  changes nothing else: no \<open>abort()\<close> call is made and the ref keeps its controller. So
  when the state is already idle, \<open>reset()\<close> changes nothing at all.
\<close>

theorem reset_idle:
  "state (reset h) = \<lparr>data = None, loading = False, error = None\<rparr>
   \<and> reset h = h\<lparr>state := \<lparr>data = None, loading = False, error = None\<rparr>\<rparr>
   \<and> aborts (reset h) = aborts h
   \<and> abortControllerRef (reset h) = abortControllerRef h
   \<and> (state h = \<lparr>data = None, loading = False, error = None\<rparr> \<longrightarrow> reset h = h)"
  by (auto simp: reset_def setState_def)

text \<open>
  The theorem at the idle initial hook, and at a hook with a request in flight.
\<close>

theorem reset_idle_witness:
  "state (useFetch_init :: (nat, string, string, unit) hook)
     = \<lparr>data = None, loading = False, error = None\<rparr>
   \<and> reset (useFetch_init :: (nat, string, string, unit) hook) = useFetch_init
   \<and> abortControllerRef (reset (execute_call example_options None
        (useFetch_init :: (nat, string, string, unit) hook))) = Some 0
   \<and> aborts (reset (execute_call example_options None
        (useFetch_init :: (nat, string, string, unit) hook))) = []"
  using reset_idle[of "useFetch_init :: (nat, string, string, unit) hook"]
    reset_idle[of "execute_call example_options None
                     (useFetch_init :: (nat, string, string, unit) hook)"]
  by (simp add: useFetch_init_def abortControllerRef_execute_call aborts_execute_call)

subsection \<open>Mount and later renders\<close>

lemmas render_defs = autoFetch_arg_def same_execute_def same_effect_deps_def mount_def
  rerender_def

text \<open>
  At the mount itself the effect calls \<open>execute\<close> once, without overrides, when
  \<open>autoFetch\<close> is true, and not at all when it is false or missing.
\<close>

lemma mount_effect:
  "mount ((r, io), Some True) = execute_call io None useFetch_init
   \<and> apiFetch_calls (mount ((r, io), Some True) :: ('a, 'e, 'v, 'x) hook) = [merge_options io None 0]
   \<and> awaiting (mount ((r, io), Some True) :: ('a, 'e, 'v, 'x) hook) = [0]
   \<and> mount ((r, io), Some False) = (useFetch_init :: ('a, 'e, 'v, 'x) hook)
   \<and> mount ((r, io), None) = (useFetch_init :: ('a, 'e, 'v, 'x) hook)
   \<and> apiFetch_calls (useFetch_init :: ('a, 'e, 'v, 'x) hook) = []"
  by (simp add: hook_defs mount_def)

text \<open>
  A later render is one of three runs of events: nothing when the dependencies of the
  effect are unchanged; otherwise the cleanup, followed by a call of \<open>execute\<close> without
  overrides when \<open>autoFetch\<close> is true. So the invariants of all runs hold across
  renders too.
\<close>

lemma rerender_as_events:
  "rerender prev new h =
     (if same_effect_deps prev new then run (snd (fst new)) [] h
      else if autoFetch_arg (snd new) then run (snd (fst new)) [Unmount, Execute None] h
      else run (snd (fst new)) [Unmount] h)"
  by (simp add: rerender_def cleanup_def effect_def)

lemma rerender_same:
  "same_effect_deps prev new \<Longrightarrow> rerender prev new h = Some h"
  by (simp add: rerender_def)

lemma rerender_changed_deps:
  "\<not> same_effect_deps prev new \<Longrightarrow> autoFetch_arg (snd new) \<Longrightarrow>
     rerender prev new h =
       Some (execute_call (snd (fst new)) None
               (case abortControllerRef h of None \<Rightarrow> h | Some c \<Rightarrow> abort c h))"
  by (simp add: rerender_def cleanup_def effect_def)

lemma apiFetch_calls_execute_call:
  "length (apiFetch_calls (execute_call io ov h)) = Suc (length (apiFetch_calls h))"
  by (simp add: execute_call_def setState_def abort_def Let_def split: option.split)

text \<open>
  Every render whose dependencies differ from those of the render before it, with
  \<open>autoFetch\<close> true, adds one \<open>apiFetch\<close> call: there is no bound on the number of
  calls that one hook with \<open>autoFetch\<close> true makes.
\<close>

lemma rerenders_changed_deps:
  "successively (\<lambda>p q. \<not> same_effect_deps p q) (prev # rest) \<Longrightarrow>
   \<forall>args \<in> set rest. autoFetch_arg (snd args) \<Longrightarrow>
     \<exists>h'. rerenders prev rest h = Some h'
          \<and> length (apiFetch_calls h') = length (apiFetch_calls h) + length rest"
proof (induction rest arbitrary: prev h)
  case Nil
  then show ?case by simp
next
  case (Cons args rest)
  from Cons.prems have d: "\<not> same_effect_deps prev args" and a: "autoFetch_arg (snd args)"
    and s: "successively (\<lambda>p q. \<not> same_effect_deps p q) (args # rest)"
    and r: "\<forall>args \<in> set rest. autoFetch_arg (snd args)"
    by simp_all
  let ?h1 = "execute_call (snd (fst args)) None
               (case abortControllerRef h of None \<Rightarrow> h | Some c \<Rightarrow> abort c h)"
  have step: "rerender prev args h = Some ?h1"
    by (rule rerender_changed_deps[OF d a])
  have len: "length (apiFetch_calls ?h1) = Suc (length (apiFetch_calls h))"
    by (simp add: apiFetch_calls_execute_call abort_def split: option.split)
  from Cons.IH[OF s r, of ?h1] obtain h' where
    "rerenders args rest ?h1 = Some h'"
    "length (apiFetch_calls h') = length (apiFetch_calls ?h1) + length rest"
    by blast
  with step len show ?case by simp
qed

text \<open>
  C7. The claim is that a hook constructed with \<open>autoFetch\<close> true triggers exactly one
  call of \<open>execute\<close>, at mount; the doc comment of \<open>useFetch\<close> says the same (line 52:
  the call is made at the mount of the component) and gives
  \<open>useFetch({url: ..., method: 'GET'}, true)\<close> as its example (lines 62 to 66). There
  the options are an object literal, so every render passes a new object with the same
  properties. The code on that input: the mount makes one \<open>apiFetch\<close> call; after the
  next render (object 1 in place of object 0) \<open>execute\<close> has been called a second
  time, two invocations are suspended, and \<open>abort()\<close> has been called twice on the
  controller of the first (by the cleanup and by \<open>execute\<close>); after a third render three
  invocations are suspended.
\<close>

theorem autoFetch_refetches_on_rerender:
  "apiFetch_calls (mount ((0, example_options), Some True) :: (nat, string, string, unit) hook)
     = [merge_options example_options None 0]
   \<and> map_option apiFetch_calls
       (rerenders ((0, example_options), Some True) [((1, example_options), Some True)]
          (mount ((0, example_options), Some True) :: (nat, string, string, unit) hook))
     = Some [merge_options example_options None 0, merge_options example_options None 1]
   \<and> map_option awaiting
       (rerenders ((0, example_options), Some True) [((1, example_options), Some True)]
          (mount ((0, example_options), Some True) :: (nat, string, string, unit) hook))
     = Some [0, 1]
   \<and> map_option aborts
       (rerenders ((0, example_options), Some True) [((1, example_options), Some True)]
          (mount ((0, example_options), Some True) :: (nat, string, string, unit) hook))
     = Some [0, 0]
   \<and> map_option awaiting
       (rerenders ((0, example_options), Some True)
          [((1, example_options), Some True), ((2, example_options), Some True)]
          (mount ((0, example_options), Some True) :: (nat, string, string, unit) hook))
     = Some [0, 1, 2]"
  by (simp add: hook_defs render_defs)

subsection \<open>Unmount\<close>

text \<open>
  The ref holds a controller exactly when \<open>execute\<close> has been called, and then it is the
  one of the latest call: no code path sets the ref back to null.
\<close>

lemma step_ref:
  assumes "step io ev h = Some h'"
    "abortControllerRef h = (if controllers h = 0 then None else Some (controllers h - 1))
     \<and> (awaiting h \<noteq> [] \<longrightarrow> controllers h \<noteq> 0)"
  shows "abortControllerRef h' = (if controllers h' = 0 then None else Some (controllers h' - 1))
     \<and> (awaiting h' \<noteq> [] \<longrightarrow> controllers h' \<noteq> 0)"
proof (cases ev)
  case (Execute ov)
  with assms(1) have "h' = execute_call io ov h" by simp
  then show ?thesis
    by (simp add: abortControllerRef_execute_call controllers_execute_call)
next
  case (Resolve c outcome)
  with assms show ?thesis
    by (cases outcome)
       (auto simp: execute_resume_def setState_def Let_def split: if_splits ApiResult.splits)
next
  case Reset
  with assms show ?thesis by (auto simp: reset_def setState_def)
next
  case Unmount
  with assms show ?thesis by (auto simp: cleanup_def abort_def split: option.splits if_splits)
qed

lemma useFetch_ref:
  "abortControllerRef (useFetch io af) =
     (if controllers (useFetch io af) = 0 then None else Some (controllers (useFetch io af) - 1))
   \<and> (awaiting (useFetch io af) \<noteq> [] \<longrightarrow> controllers (useFetch io af) \<noteq> 0)"
  by (simp add: useFetch_def effect_def abortControllerRef_execute_call controllers_execute_call
        useFetch_init_def split: option.split)

text \<open>
  Against C4 as stated: after a request has resolved, no invocation is suspended and no
  \<open>abort()\<close> call has been made; the cleanup then calls \<open>abort()\<close> on the controller of
  that finished request.
\<close>

theorem cleanup_counterexample:
  "map_option awaiting
     (run example_options [Execute None, Resolve 0 (Fulfilled (Ok 7))]
        (useFetch example_options None :: (nat, string, string, unit) hook))
   = Some []
   \<and> map_option aborts
     (run example_options [Execute None, Resolve 0 (Fulfilled (Ok 7))]
        (useFetch example_options None :: (nat, string, string, unit) hook))
   = Some []
   \<and> map_option aborts
     (run example_options [Execute None, Resolve 0 (Fulfilled (Ok 7)), Unmount]
        (useFetch example_options None :: (nat, string, string, unit) hook))
   = Some [0]"
  by (simp add: hook_defs)

text \<open>
  C4 (amended). In every reachable state the cleanup completes normally (it does not
  throw). When \<open>execute\<close> has been called at least once, whether its request is still in
  flight or has resolved, the cleanup makes exactly one \<open>abort()\<close> call, on the controller
  of the latest \<open>execute\<close> call, and changes nothing else; when \<open>execute\<close> has never been
  called it makes no \<open>abort()\<close> call and changes nothing. While a request is in flight
  \<open>execute\<close> has been called, so the first case applies.
\<close>

theorem cleanup_aborts_installed:
  "run io evs (useFetch io autoFetch) = Some h \<Longrightarrow>
     cleanup h = Normal (if controllers h = 0 then h
                         else h\<lparr>aborts := aborts h @ [controllers h - 1]\<rparr>)
     \<and> (awaiting h \<noteq> [] \<longrightarrow> controllers h \<noteq> 0)"
proof -
  assume r: "run io evs (useFetch io autoFetch) = Some h"
  have "abortControllerRef h = (if controllers h = 0 then None else Some (controllers h - 1))
        \<and> (awaiting h \<noteq> [] \<longrightarrow> controllers h \<noteq> 0)"
    by (rule run_invariant[where P = "\<lambda>h. abortControllerRef h =
              (if controllers h = 0 then None else Some (controllers h - 1))
              \<and> (awaiting h \<noteq> [] \<longrightarrow> controllers h \<noteq> 0)", OF _ useFetch_ref r])
       (rule step_ref)
  then show ?thesis by (simp add: cleanup_def abort_def)
qed

text \<open>
  The theorem after three \<open>execute\<close> calls (one from the mount), all in flight, where
  the cleanup aborts controller 2, and at a hook on which \<open>execute\<close> was never called.
\<close>

theorem cleanup_aborts_installed_witness:
  "map_option aborts
     (run example_options [Execute None, Execute None]
        (useFetch example_options (Some True) :: (nat, string, string, unit) hook))
   = Some [0, 1]
   \<and> map_option awaiting
     (run example_options [Execute None, Execute None]
        (useFetch example_options (Some True) :: (nat, string, string, unit) hook))
   = Some [0, 1, 2]
   \<and> map_option aborts
     (run example_options [Execute None, Execute None, Unmount]
        (useFetch example_options (Some True) :: (nat, string, string, unit) hook))
   = Some [0, 1, 2]
   \<and> map_option aborts
     (run example_options [Unmount]
        (useFetch example_options None :: (nat, string, string, unit) hook))
   = Some []"
proof -
  have r: "run example_options [Execute None, Execute None]
        (useFetch example_options (Some True) :: (nat, string, string, unit) hook)
      = Some (the (run example_options [Execute None, Execute None]
        (useFetch example_options (Some True))))"
    by (simp add: hook_defs)
  have r0: "run example_options []
        (useFetch example_options None :: (nat, string, string, unit) hook)
      = Some (useFetch example_options None)"
    by simp
  show ?thesis
    using cleanup_aborts_installed[OF r] cleanup_aborts_installed[OF r0]
    by (simp add: hook_defs)
qed

end
